theory Spec2Isabelle
  imports Main
begin

section \<open>Data model\<close>

text \<open>
  The application of \<^verbatim>\<open>src/index.js\<close> is a chain of route handlers and one guard over
  four external collaborators: the password hasher, the database client, the session
  middleware and the template renderer. The model keeps the handlers and the order in
  which they are registered, and takes the behaviour of the collaborators during one
  request as a parameter (\<open>env\<close>), so that every theorem holds for whatever they do.

  A promise that rejects, an exception and the error argument of a callback are a
  \<open>failure\<close> carrying the error's message.
\<close>

datatype failure = Failure string

text \<open>
  A row of the \<^verbatim>\<open>users\<close> table, as \<^verbatim>\<open>SELECT * FROM users\<close> returns it. The column
  \<open>password\<close> holds the hash.
\<close>

record user_row =
  username :: string
  password :: string

text \<open>The session object \<^verbatim>\<open>req.session\<close>; \<open>user\<close> is \<open>None\<close> while the property is unset.\<close>

record session =
  user :: "user_row option"

text \<open>The object literal handed to \<^verbatim>\<open>res.render\<close>, as a list of its properties in order.\<close>

datatype jsval = JStr string | JBool bool

type_synonym locals = "(string \<times> jsval) list"

text \<open>
  What a request is answered with: \<open>Render v l\<close> is \<^verbatim>\<open>res.render(v, l)\<close>, \<open>Redirect u\<close> is
  \<^verbatim>\<open>res.redirect(u)\<close>, \<open>Send n s\<close> is \<^verbatim>\<open>res.status(n).send(s)\<close>. \<open>Unhandled\<close> is an
  exception that escapes a handler, and \<open>Unrouted\<close> a request that no layer of the
  application answers; the framework replies to both on its own.
\<close>

datatype response =
  Render string locals
  | Redirect string
  | Send nat string
  | Unhandled failure
  | Unrouted

text \<open>
  The status line of a response: a render or a send without \<^verbatim>\<open>res.status\<close> is 200, a
  redirect is 302; the two replies of the framework itself are not part of the model.
\<close>

fun status_code :: "response \<Rightarrow> nat option" where
  "status_code (Render v l) = Some 200"
| "status_code (Redirect u) = Some 302"
| "status_code (Send n s) = Some n"
| "status_code (Unhandled err) = None"
| "status_code Unrouted = None"

fun is_redirect :: "response \<Rightarrow> bool" where
  "is_redirect (Redirect u) = True"
| "is_redirect (Render v l) = False"
| "is_redirect (Send n s) = False"
| "is_redirect (Unhandled err) = False"
| "is_redirect Unrouted = False"

fun is_render :: "response \<Rightarrow> bool" where
  "is_render (Render v l) = True"
| "is_render (Redirect u) = False"
| "is_render (Send n s) = False"
| "is_render (Unhandled err) = False"
| "is_render Unrouted = False"

datatype http_verb = GET | HEAD | POST | OTHER

text \<open>
  A request: \<open>client\<close> names the holder of the session cookie, \<open>path\<close> is the path of the
  request as it was sent, without the query string, and the two body fields are \<^verbatim>\<open>req.body.username\<close> and
  \<^verbatim>\<open>req.body.password\<close>, \<open>None\<close> when the form did not send them.
\<close>

record request =
  client :: nat
  verb :: http_verb
  path :: string
  body_username :: "string option"
  body_password :: "string option"

text \<open>
  The state the requests share: the contents of the \<^verbatim>\<open>users\<close> table and the session
  store, which holds at most one session for each client.
\<close>

record state =
  users :: "user_row list"
  sessions :: "nat \<Rightarrow> session option"

text \<open>
  The collaborators during one request:
  \<^item> \<open>bcrypt_hash p\<close> is \<^verbatim>\<open>bcrypt.hash(p, 10)\<close>;
  \<^item> \<open>bcrypt_compare p h\<close> is \<^verbatim>\<open>bcrypt.compare(p, h)\<close>;
  \<^item> \<open>db_none t u h\<close> is the \<^verbatim>\<open>INSERT INTO users\<close> statement run on the table \<open>t\<close>, giving
    the new table;
  \<^item> \<open>db_oneOrNone t u\<close> is the \<^verbatim>\<open>SELECT\<close> by username run on \<open>t\<close>;
  \<^item> \<open>store_destroy\<close> is the error argument that \<^verbatim>\<open>req.session.destroy\<close> passes to its
    callback.
\<close>

record env =
  bcrypt_hash :: "string option \<Rightarrow> failure + string"
  bcrypt_compare :: "string option \<Rightarrow> string \<Rightarrow> failure + bool"
  db_none :: "user_row list \<Rightarrow> string option \<Rightarrow> string \<Rightarrow> failure + user_row list"
  db_oneOrNone :: "user_row list \<Rightarrow> string option \<Rightarrow> failure + user_row option"
  store_destroy :: "failure option"

section \<open>Session middleware\<close>

text \<open>
  The session middleware gives every request the session stored for its client, or a new
  one with no properties. \<^verbatim>\<open>req.session.save()\<close> writes the session to the store;
  \<^verbatim>\<open>req.session.destroy(cb)\<close> removes it and calls \<open>cb\<close> with the error, if any. A
  destroy that reports an error is taken to leave the store as it was.
\<close>

definition client_session :: "state \<Rightarrow> nat \<Rightarrow> session" where
  "client_session st c = (case sessions st c of None \<Rightarrow> \<lparr>user = None\<rparr> | Some s \<Rightarrow> s)"

definition req_session :: "state \<Rightarrow> request \<Rightarrow> session" where
  "req_session st rq = client_session st (client rq)"

definition session_save :: "state \<Rightarrow> nat \<Rightarrow> session \<Rightarrow> state" where
  "session_save st c s = st\<lparr>sessions := (sessions st)(c := Some s)\<rparr>"

definition session_destroy :: "env \<Rightarrow> state \<Rightarrow> nat \<Rightarrow> failure option \<times> state" where
  "session_destroy e st c =
     (case store_destroy e of
        Some err \<Rightarrow> (Some err, st)
      | None \<Rightarrow> (None, st\<lparr>sessions := (sessions st)(c := None)\<rparr>))"

section \<open>Handlers\<close>

text \<open>
  A handler either answers the request (\<open>Done\<close>, with the state it leaves) or calls
  \<^verbatim>\<open>next()\<close>. The \<^verbatim>\<open>console.error\<close> calls of the \<^verbatim>\<open>catch\<close> blocks write to the log of the
  server, which no response and no later request reads; they are left out.
\<close>

datatype outcome = Done response state | Next

type_synonym handler = "env \<Rightarrow> state \<Rightarrow> request \<Rightarrow> outcome"

text \<open>
  \<open>await p k\<close> is \<^verbatim>\<open>const v = await p; k(v)\<close> inside a \<^verbatim>\<open>try\<close> block: a rejected promise
  leaves the block with its error.
\<close>

definition await :: "failure + 'a \<Rightarrow> ('a \<Rightarrow> failure + 'b) \<Rightarrow> failure + 'b" where
  "await p k = (case p of Inl err \<Rightarrow> Inl err | Inr v \<Rightarrow> k v)"

text \<open>
  \<^verbatim>\<open>res.render\<close> hands the view and its locals to the template engine. The engine reports
  its own errors through the framework's error path and the call itself returns, so the
  call never takes the \<open>Inl\<close> branch; the result type keeps the \<^verbatim>\<open>catch\<close> blocks around it
  visible in the handlers.
\<close>

definition res_render :: "string \<Rightarrow> locals \<Rightarrow> failure + response" where
  "res_render view opts = Inr (Render view opts)"

text \<open>A \<^verbatim>\<open>res.render\<close> outside any \<^verbatim>\<open>try\<close> block.\<close>

definition render_page :: "string \<Rightarrow> locals \<Rightarrow> state \<Rightarrow> outcome" where
  "render_page view opts st =
     (case res_render view opts of
        Inr r \<Rightarrow> Done r st
      | Inl err \<Rightarrow> Done (Unhandled err) st)"

definition get_root :: handler where
  "get_root e st rq = Done (Redirect ''/login'') st"

definition get_login :: handler where
  "get_login e st rq = render_page ''pages/login'' [] st"

definition get_register :: handler where
  "get_register e st rq = render_page ''pages/register'' [] st"

text \<open>The \<^verbatim>\<open>try\<close> block of \<^verbatim>\<open>POST /register\<close>, and the handler with its \<^verbatim>\<open>catch\<close>.\<close>

definition register_try :: "env \<Rightarrow> state \<Rightarrow> request \<Rightarrow> failure + (response \<times> state)" where
  "register_try e st rq =
     await (bcrypt_hash e (body_password rq)) (\<lambda>hash.
     await (db_none e (users st) (body_username rq) hash) (\<lambda>tbl.
     Inr (Redirect ''/login'', st\<lparr>users := tbl\<rparr>)))"

definition post_register :: handler where
  "post_register e st rq =
     (case register_try e st rq of
        Inr (r, st') \<Rightarrow> Done r st'
      | Inl err \<Rightarrow> Done (Redirect ''/register'') st)"

text \<open>The \<^verbatim>\<open>try\<close> block of \<^verbatim>\<open>POST /login\<close>, and the handler with its \<^verbatim>\<open>catch\<close>.\<close>

definition login_try :: "env \<Rightarrow> state \<Rightarrow> request \<Rightarrow> failure + (response \<times> state)" where
  "login_try e st rq =
     await (db_oneOrNone e (users st) (body_username rq)) (\<lambda>row.
     case row of
       None \<Rightarrow>
         await (res_render ''pages/login''
                  [(''message'', JStr ''Username not found. Please register.''),
                   (''error'', JBool True)])
           (\<lambda>r. Inr (r, st))
     | Some u \<Rightarrow>
         await (bcrypt_compare e (body_password rq) (password u)) (\<lambda>match.
         if \<not> match then
           await (res_render ''login''
                    [(''message'', JStr ''Incorrect username or password.''),
                     (''error'', JBool True)])
             (\<lambda>r. Inr (r, st))
         else
           Inr (Redirect ''/discover'',
                session_save st (client rq) ((req_session st rq)\<lparr>user := Some u\<rparr>))))"

definition post_login :: handler where
  "post_login e st rq =
     (case login_try e st rq of
        Inr (r, st') \<Rightarrow> Done r st'
      | Inl err \<Rightarrow>
          render_page ''pages/login''
            [(''message'', JStr ''An error occurred during login. Please try again.''),
             (''error'', JBool True)] st)"

text \<open>The authentication middleware.\<close>

definition auth :: handler where
  "auth e st rq =
     (if user (req_session st rq) = None then Done (Redirect ''/login'') st else Next)"

definition get_discover :: handler where
  "get_discover e st rq = render_page ''pages/discover'' [] st"

definition get_logout :: handler where
  "get_logout e st rq =
     (case session_destroy e st (client rq) of
        (Some err, st') \<Rightarrow> Done (Send 500 ''Could not log out.'') st'
      | (None, st') \<Rightarrow>
          render_page ''pages/logout''
            [(''message'', JStr ''Logged out Successfully''), (''error'', JBool False)] st')"

definition get_profile :: handler where
  "get_profile e st rq =
     (case user (req_session st rq) of
        None \<Rightarrow> Done (Send 401 ''Not authenticated'') st
      | Some u \<Rightarrow>
          (case res_render ''pages/profile'' [(''username'', JStr (username u))] of
             Inr r \<Rightarrow> Done r st
           | Inl err \<Rightarrow> Done (Send 500 ''Internal Server Error'') st))"

section \<open>The application\<close>

text \<open>
  The layers of the application in the order of their registration: \<open>Route m p h\<close> is
  \<^verbatim>\<open>app.get(p, h)\<close> or \<^verbatim>\<open>app.post(p, h)\<close>, \<open>Use h\<close> is \<^verbatim>\<open>app.use(h)\<close> and \<open>UseAt p h\<close> is
  \<^verbatim>\<open>app.use(p, h)\<close>. A \<^verbatim>\<open>get\<close> route also answers \<^verbatim>\<open>HEAD\<close>. The layers registered before
  the first route (static files, the body parsers, the session middleware) prepare
  \<^verbatim>\<open>req.body\<close> and \<^verbatim>\<open>req.session\<close>, which the model reads from the request and from the
  store.

  The application leaves the router's settings at their defaults, so a route path is
  compared with the path of the request without regard to the case of the letters A to Z
  and with one optional slash at the end: the route \<^verbatim>\<open>/login\<close> matches \<^verbatim>\<open>/login\<close>, \<^verbatim>\<open>/LOGIN\<close>
  and \<^verbatim>\<open>/login/\<close>. A mounted middleware runs on its path, matched in the same way, and on
  every path below it.
\<close>

definition lower_char :: "char \<Rightarrow> char" where
  "lower_char c =
     (case map_of (zip ''ABCDEFGHIJKLMNOPQRSTUVWXYZ'' ''abcdefghijklmnopqrstuvwxyz'') c of
        None \<Rightarrow> c
      | Some l \<Rightarrow> l)"

definition strip_slash :: "string \<Rightarrow> string" where
  "strip_slash p = (if p \<noteq> [] \<and> last p = CHR ''/'' then butlast p else p)"

definition path_match :: "string \<Rightarrow> string \<Rightarrow> bool" where
  "path_match p s =
     (let q = map lower_char s; r = strip_slash (map lower_char p)
      in q = r \<or> q = r @ ''/'')"

definition mount_match :: "string \<Rightarrow> string \<Rightarrow> bool" where
  "mount_match p s =
     (let q = map lower_char s; r = strip_slash (map lower_char p)
      in q = r \<or> take (Suc (length r)) q = r @ ''/'')"

datatype layer = Route http_verb string handler | Use handler | UseAt string handler

fun layer_matches :: "layer \<Rightarrow> request \<Rightarrow> bool" where
  "layer_matches (Route m p h) rq =
     (path_match p (path rq) \<and> (verb rq = m \<or> (m = GET \<and> verb rq = HEAD)))"
| "layer_matches (Use h) rq = True"
| "layer_matches (UseAt p h) rq = mount_match p (path rq)"

fun layer_handler :: "layer \<Rightarrow> handler" where
  "layer_handler (Route m p h) = h"
| "layer_handler (Use h) = h"
| "layer_handler (UseAt p h) = h"

fun dispatch :: "layer list \<Rightarrow> env \<Rightarrow> state \<Rightarrow> request \<Rightarrow> response \<times> state" where
  "dispatch [] e st rq = (Unrouted, st)"
| "dispatch (l # ls) e st rq =
     (if layer_matches l rq then
        (case layer_handler l e st rq of
           Done r st' \<Rightarrow> (r, st')
         | Next \<Rightarrow> dispatch ls e st rq)
      else dispatch ls e st rq)"

definition layers :: "layer list" where
  "layers =
     [Route GET ''/'' get_root,
      Route GET ''/login'' get_login,
      Route GET ''/register'' get_register,
      Route POST ''/register'' post_register,
      Route POST ''/login'' post_login,
      Use auth,
      UseAt ''/discover'' auth,
      Route GET ''/discover'' get_discover,
      Route GET ''/logout'' get_logout,
      Route GET ''/profile'' get_profile]"

definition app :: "env \<Rightarrow> state \<Rightarrow> request \<Rightarrow> response \<times> state" where
  "app e st rq = dispatch layers e st rq"

text \<open>A sequence of requests, each with the collaborators' behaviour while it is served.\<close>

fun run :: "state \<Rightarrow> (env \<times> request) list \<Rightarrow> response list \<times> state" where
  "run st [] = ([], st)"
| "run st (x # xs) =
     (case app (fst x) st (snd x) of
        (r, st') \<Rightarrow> (case run st' xs of (rs, st'') \<Rightarrow> (r # rs, st'')))"

section \<open>The body of a response\<close>

text \<open>
  The handlers give \<^verbatim>\<open>res.redirect\<close> a target and nothing else; the body of a redirect is
  written by the framework, which is not part of \<^verbatim>\<open>src/index.js\<close>. For a client that accepts
  \<^verbatim>\<open>text/plain\<close> (a request without an \<^verbatim>\<open>Accept\<close> header is one) the framework writes the
  reason phrase of status 302 and the target, and \<^verbatim>\<open>res.send\<close> writes the text it is given;
  neither writes a body in answer to \<^verbatim>\<open>HEAD\<close>. The targets of this application are plain
  paths, which the framework's URL encoding leaves as they are. \<open>body_sent v r\<close> is the body
  such a client receives for the response \<open>r\<close> to a request of verb \<open>v\<close>; the output of the
  template engine, and the framework's own replies, are outside the model.
\<close>

fun body_sent :: "http_verb \<Rightarrow> response \<Rightarrow> string option" where
  "body_sent v (Redirect u) = Some (if v = HEAD then [] else ''Found. Redirecting to '' @ u)"
| "body_sent v (Send n s) = Some (if v = HEAD then [] else s)"
| "body_sent v (Render view opts) = None"
| "body_sent v (Unhandled err) = None"
| "body_sent v Unrouted = None"

section \<open>Concrete collaborators\<close>

text \<open>
  The theorems below hold for every behaviour of the collaborators. To run them on
  concrete requests, this section fixes one behaviour: a hasher that cannot be mistaken
  for a real one, and a table that enforces the uniqueness of \<open>username\<close>.
\<close>

definition stub_hash :: "string option \<Rightarrow> failure + string" where
  "stub_hash p =
     (case p of
        None \<Rightarrow> Inl (Failure ''Illegal arguments: undefined, number'')
      | Some s \<Rightarrow> Inr (''#'' @ s))"

definition stub_compare :: "string option \<Rightarrow> string \<Rightarrow> failure + bool" where
  "stub_compare p h =
     (case p of
        None \<Rightarrow> Inl (Failure ''Illegal arguments: undefined, string'')
      | Some s \<Rightarrow> Inr (h = ''#'' @ s))"

text \<open>
  Modelled from the spec: the \<^verbatim>\<open>users\<close> table, whose declaration is not in
  \<^verbatim>\<open>src/index.js\<close>. The specification gives it the columns \<open>username\<close> (unique, the primary
  identifier) and \<open>password\<close>; an insert of a username that is already there is a
  uniqueness violation and adds no row, and a lookup expects zero or one row.
\<close>

definition pg_none :: "user_row list \<Rightarrow> string option \<Rightarrow> string \<Rightarrow> failure + user_row list" where
  "pg_none tbl u h =
     (case u of
        None \<Rightarrow> Inl (Failure ''null value in column username'')
      | Some n \<Rightarrow>
          if n \<in> set (map username tbl)
          then Inl (Failure ''duplicate key value violates unique constraint'')
          else Inr (tbl @ [\<lparr>username = n, password = h\<rparr>]))"

definition pg_oneOrNone :: "user_row list \<Rightarrow> string option \<Rightarrow> failure + user_row option" where
  "pg_oneOrNone tbl u =
     (case u of
        None \<Rightarrow> Inr None
      | Some n \<Rightarrow>
          (case filter (\<lambda>r. username r = n) tbl of
             [] \<Rightarrow> Inr None
           | [r] \<Rightarrow> Inr (Some r)
           | r # r' # rs \<Rightarrow> Inl (Failure ''Multiple rows were not expected.'')))"

text \<open>Every collaborator works.\<close>

definition up_env :: env where
  "up_env =
     \<lparr>bcrypt_hash = stub_hash, bcrypt_compare = stub_compare,
      db_none = pg_none, db_oneOrNone = pg_oneOrNone, store_destroy = None\<rparr>"

text \<open>The database cannot be reached.\<close>

definition down_env :: env where
  "down_env =
     \<lparr>bcrypt_hash = stub_hash, bcrypt_compare = stub_compare,
      db_none = (\<lambda>tbl u h. Inl (Failure ''connect ECONNREFUSED'')),
      db_oneOrNone = (\<lambda>tbl u. Inl (Failure ''connect ECONNREFUSED'')),
      store_destroy = None\<rparr>"

text \<open>The hasher's comparison throws.\<close>

definition badhash_env :: env where
  "badhash_env =
     \<lparr>bcrypt_hash = stub_hash,
      bcrypt_compare = (\<lambda>p h. Inl (Failure ''Not a valid BCrypt hash.'')),
      db_none = pg_none, db_oneOrNone = pg_oneOrNone, store_destroy = None\<rparr>"

text \<open>The session store fails to destroy a session.\<close>

definition stuck_env :: env where
  "stuck_env =
     \<lparr>bcrypt_hash = stub_hash, bcrypt_compare = stub_compare,
      db_none = pg_none, db_oneOrNone = pg_oneOrNone,
      store_destroy = Some (Failure ''store unavailable'')\<rparr>"

text \<open>A request with no form fields, and a form post.\<close>

definition plain_rq :: "nat \<Rightarrow> http_verb \<Rightarrow> string \<Rightarrow> request" where
  "plain_rq c m p =
     \<lparr>client = c, verb = m, path = p, body_username = None, body_password = None\<rparr>"

definition form_rq :: "nat \<Rightarrow> string \<Rightarrow> string \<Rightarrow> string \<Rightarrow> request" where
  "form_rq c p u pw =
     \<lparr>client = c, verb = POST, path = p, body_username = Some u, body_password = Some pw\<rparr>"

text \<open>The process just started, with an empty table; and with \<open>alice\<close> registered.\<close>

definition start :: state where
  "start = \<lparr>users = [], sessions = (\<lambda>c. None)\<rparr>"

definition alice :: user_row where
  "alice = \<lparr>username = ''alice'', password = ''#pw1''\<rparr>"

definition registered :: state where
  "registered = \<lparr>users = [alice], sessions = (\<lambda>c. None)\<rparr>"

text \<open>Client \<open>c\<close> is logged in as \<open>alice\<close>, with the hash \<open>h\<close> in its session.\<close>

definition logged_in :: "nat \<Rightarrow> string \<Rightarrow> state" where
  "logged_in c h =
     \<lparr>users = [alice],
      sessions = (\<lambda>c'. if c' = c then Some \<lparr>user = Some \<lparr>username = ''alice'', password = h\<rparr>\<rparr> else None)\<rparr>"

text \<open>What a template can learn of a session: the username of its user, if it has one.\<close>

definition public_user :: "session \<Rightarrow> string option" where
  "public_user s = map_option username (user s)"

text \<open>
  Two states that agree on the table and on what a template can learn of every client's
  session; they may differ in the password hashes their sessions hold.
\<close>

definition same_view :: "state \<Rightarrow> state \<Rightarrow> bool" where
  "same_view st1 st2 \<longleftrightarrow>
     users st1 = users st2
     \<and> (\<forall>c. public_user (client_session st1 c) = public_user (client_session st2 c))"

fun same_outcome :: "outcome \<Rightarrow> outcome \<Rightarrow> bool" where
  "same_outcome (Done r1 st1) (Done r2 st2) = (r1 = r2 \<and> same_view st1 st2)"
| "same_outcome Next Next = True"
| "same_outcome (Done r1 st1) Next = False"
| "same_outcome Next (Done r2 st2) = False"

section \<open>Routing lemmas\<close>

lemmas handler_defs =
  get_root_def get_login_def get_register_def post_register_def post_login_def auth_def
  get_discover_def get_logout_def get_profile_def render_page_def res_render_def
  register_try_def login_try_def await_def session_destroy_def session_save_def

lemmas concrete_defs =
  up_env_def down_env_def badhash_env_def stuck_env_def stub_hash_def stub_compare_def
  pg_none_def pg_oneOrNone_def plain_rq_def form_rq_def start_def alice_def
  registered_def logged_in_def req_session_def client_session_def

text \<open>The paths of the routes, written as the routes are, match their own route and no other.\<close>

lemma path_facts:
  "\<not> path_match ''/'' ''/register''"
  "\<not> path_match ''/login'' ''/register''"
  "path_match ''/register'' ''/register''"
  "\<not> path_match ''/discover'' ''/register''"
  "\<not> path_match ''/logout'' ''/register''"
  "\<not> path_match ''/profile'' ''/register''"
  "\<not> mount_match ''/discover'' ''/register''"
  "\<not> path_match ''/'' ''/login''"
  "path_match ''/login'' ''/login''"
  "\<not> path_match ''/register'' ''/login''"
  "\<not> path_match ''/discover'' ''/login''"
  "\<not> path_match ''/logout'' ''/login''"
  "\<not> path_match ''/profile'' ''/login''"
  "\<not> mount_match ''/discover'' ''/login''"
  "\<not> path_match ''/'' ''/discover''"
  "\<not> path_match ''/login'' ''/discover''"
  "\<not> path_match ''/register'' ''/discover''"
  "path_match ''/discover'' ''/discover''"
  "\<not> path_match ''/logout'' ''/discover''"
  "\<not> path_match ''/profile'' ''/discover''"
  "mount_match ''/discover'' ''/discover''"
  "\<not> path_match ''/'' ''/logout''"
  "\<not> path_match ''/login'' ''/logout''"
  "\<not> path_match ''/register'' ''/logout''"
  "\<not> path_match ''/discover'' ''/logout''"
  "path_match ''/logout'' ''/logout''"
  "\<not> path_match ''/profile'' ''/logout''"
  "\<not> mount_match ''/discover'' ''/logout''"
  "\<not> path_match ''/'' ''/profile''"
  "\<not> path_match ''/login'' ''/profile''"
  "\<not> path_match ''/register'' ''/profile''"
  "\<not> path_match ''/discover'' ''/profile''"
  "\<not> path_match ''/logout'' ''/profile''"
  "path_match ''/profile'' ''/profile''"
  "\<not> mount_match ''/discover'' ''/profile''"
  by (simp_all add: path_match_def mount_match_def strip_slash_def lower_char_def)

text \<open>The spellings of a path that a route accepts.\<close>

lemma path_match_login:
  "path_match ''/login'' s \<longleftrightarrow> map lower_char s = ''/login'' \<or> map lower_char s = ''/login/''"
  by (simp add: path_match_def strip_slash_def lower_char_def Let_def)

lemma path_match_variants:
  "path_match ''/login'' ''/LOGIN''" "path_match ''/login'' ''/login/''"
  "path_match ''/login'' ''/Login/''" "\<not> path_match ''/login'' ''/login//''"
  "\<not> path_match ''/login'' ''/login/x''" "\<not> path_match ''/login'' ''/log''"
  "path_match ''/'' ''/''" "\<not> path_match ''/'' ''//''"
  "mount_match ''/discover'' ''/Discover/more''" "\<not> mount_match ''/discover'' ''/discovery''"
  by (simp_all add: path_match_def mount_match_def strip_slash_def lower_char_def)

text \<open>The routes registered before the guard answer whatever the session holds.\<close>

lemma app_post_register:
  assumes "verb rq = POST" and "path rq = ''/register''" and "post_register e st rq = Done r st'"
  shows "app e st rq = (r, st')"
  using assms by (simp add: app_def layers_def path_facts)

lemma app_post_login:
  assumes "verb rq = POST" and "path rq = ''/login''" and "post_login e st rq = Done r st'"
  shows "app e st rq = (r, st')"
  using assms by (simp add: app_def layers_def path_facts)

text \<open>
  Every other request meets the guard first: without a user in the session it is
  redirected, whatever its verb and path, and the state stays as it was.
\<close>

lemma app_gate:
  assumes "user (req_session st rq) = None"
    and "\<not> path_match ''/'' (path rq)" and "\<not> path_match ''/login'' (path rq)"
    and "\<not> path_match ''/register'' (path rq)"
  shows "app e st rq = (Redirect ''/login'', st)"
  using assms by (simp add: app_def layers_def auth_def)

lemma app_get_discover:
  assumes "verb rq = GET" and "path rq = ''/discover''" and "user (req_session st rq) = Some u"
  shows "app e st rq = (Render ''pages/discover'' [], st)"
  using assms by (simp add: app_def layers_def handler_defs path_facts)

lemma app_get_logout:
  assumes "verb rq = GET" and "path rq = ''/logout''" and "user (req_session st rq) = Some u"
    and "get_logout e st rq = Done r st'"
  shows "app e st rq = (r, st')"
  using assms by (simp add: app_def layers_def auth_def path_facts)

lemma app_get_profile:
  assumes "verb rq = GET" and "path rq = ''/profile''" and "user (req_session st rq) = Some u"
    and "get_profile e st rq = Done r st'"
  shows "app e st rq = (r, st')"
  using assms by (simp add: app_def layers_def auth_def path_facts)

section \<open>Registration\<close>

text \<open>
  C5, as stated, at a first registration from a client that accepts plain text: the
  response is the redirect to \<^verbatim>\<open>/login\<close>, and it has a body, the redirect notice of the
  framework.
\<close>

theorem register_body_counterexample:
  "app up_env start (form_rq 1 ''/register'' ''alice'' ''pw1'') = (Redirect ''/login'', registered)
   \<and> body_sent POST (fst (app up_env start (form_rq 1 ''/register'' ''alice'' ''pw1'')))
       = Some ''Found. Redirecting to /login''
   \<and> body_sent POST (fst (app up_env start (form_rq 1 ''/register'' ''alice'' ''pw1'')))
       \<noteq> Some []"
proof -
  let ?rq = "form_rq 1 ''/register'' ''alice'' ''pw1''"
  have "post_register up_env start ?rq = Done (Redirect ''/login'') registered"
    by (simp add: post_register_def register_try_def await_def concrete_defs)
  then have "app up_env start ?rq = (Redirect ''/login'', registered)"
    by (intro app_post_register) (simp_all add: form_rq_def)
  then show ?thesis by simp
qed

text \<open>
  C5, amended. A \<^verbatim>\<open>POST /register\<close> is answered with a redirect to \<^verbatim>\<open>/login\<close> when the hash
  and the insert both succeed, and the table is then the one the insert left. When the
  hash fails, or the insert fails (a uniqueness violation, an unreachable store, anything
  else), it is answered with a redirect to \<^verbatim>\<open>/register\<close> that is the same for every error,
  and the state is unchanged. The handler gives the redirect its target and no body of
  its own; the body a client that accepts plain text receives is the redirect notice of
  the framework, which names the target and nothing of the error.
\<close>

theorem register_redirects:
  assumes "verb rq = POST" and "path rq = ''/register''"
  shows "(\<forall>h tbl. bcrypt_hash e (body_password rq) = Inr h
            \<and> db_none e (users st) (body_username rq) h = Inr tbl
          \<longrightarrow> app e st rq = (Redirect ''/login'', st\<lparr>users := tbl\<rparr>)
            \<and> status_code (fst (app e st rq)) = Some 302
            \<and> body_sent (verb rq) (fst (app e st rq)) = Some ''Found. Redirecting to /login'')
       \<and> (\<forall>err. bcrypt_hash e (body_password rq) = Inl err
          \<longrightarrow> app e st rq = (Redirect ''/register'', st)
            \<and> status_code (fst (app e st rq)) = Some 302
            \<and> body_sent (verb rq) (fst (app e st rq)) = Some ''Found. Redirecting to /register'')
       \<and> (\<forall>h err. bcrypt_hash e (body_password rq) = Inr h
            \<and> db_none e (users st) (body_username rq) h = Inl err
          \<longrightarrow> app e st rq = (Redirect ''/register'', st)
            \<and> status_code (fst (app e st rq)) = Some 302
            \<and> body_sent (verb rq) (fst (app e st rq)) = Some ''Found. Redirecting to /register'')"
proof -
  have ok: "app e st rq = (Redirect ''/login'', st\<lparr>users := tbl\<rparr>)"
    if "bcrypt_hash e (body_password rq) = Inr h"
      and "db_none e (users st) (body_username rq) h = Inr tbl" for h tbl
    using that
    by (intro app_post_register assms) (simp add: post_register_def register_try_def await_def)
  have nohash: "app e st rq = (Redirect ''/register'', st)"
    if "bcrypt_hash e (body_password rq) = Inl err" for err
    using that
    by (intro app_post_register assms) (simp add: post_register_def register_try_def await_def)
  have noinsert: "app e st rq = (Redirect ''/register'', st)"
    if "bcrypt_hash e (body_password rq) = Inr h"
      and "db_none e (users st) (body_username rq) h = Inl err" for h err
    using that
    by (intro app_post_register assms) (simp add: post_register_def register_try_def await_def)
  show ?thesis
    using ok nohash noinsert assms(1) by auto
qed

theorem register_redirects_witness:
  "app up_env start (form_rq 1 ''/register'' ''alice'' ''pw1'') = (Redirect ''/login'', registered)
   \<and> app up_env registered (form_rq 1 ''/register'' ''alice'' ''pw2'')
       = (Redirect ''/register'', registered)
   \<and> body_sent POST (fst (app up_env registered (form_rq 1 ''/register'' ''alice'' ''pw2'')))
       = Some ''Found. Redirecting to /register''
   \<and> app down_env start (form_rq 1 ''/register'' ''alice'' ''pw1'') = (Redirect ''/register'', start)
   \<and> app up_env start
         \<lparr>client = 1, verb = POST, path = ''/register'',
          body_username = Some ''alice'', body_password = None\<rparr>
       = (Redirect ''/register'', start)"
proof -
  let ?ok = "form_rq 1 ''/register'' ''alice'' ''pw1''"
  let ?dup = "form_rq 1 ''/register'' ''alice'' ''pw2''"
  let ?nopw = "\<lparr>client = 1, verb = POST, path = ''/register'',
                body_username = Some ''alice'', body_password = None\<rparr>"
  have m: "verb ?ok = POST" "path ?ok = ''/register''"
          "verb ?dup = POST" "path ?dup = ''/register''"
          "verb ?nopw = POST" "path ?nopw = ''/register''"
    by (simp_all add: form_rq_def)
  have a: "app up_env start ?ok = (Redirect ''/login'', registered)"
    using register_redirects [OF m(1) m(2), of up_env start]
    by (simp add: concrete_defs)
  have b: "app up_env registered ?dup = (Redirect ''/register'', registered)
           \<and> body_sent POST (fst (app up_env registered ?dup))
               = Some ''Found. Redirecting to /register''"
    using register_redirects [OF m(3) m(4), of up_env registered]
    by (simp add: concrete_defs)
  have c: "app down_env start ?ok = (Redirect ''/register'', start)"
    using register_redirects [OF m(1) m(2), of down_env start]
    by (simp add: concrete_defs)
  have d: "app up_env start ?nopw = (Redirect ''/register'', start)"
    using register_redirects [OF m(5) m(6), of up_env start]
    by (simp add: concrete_defs)
  from a b c d show ?thesis by simp
qed

section \<open>Login\<close>

text \<open>
  The four ways out of the login handler's \<^verbatim>\<open>try\<close> block and its \<^verbatim>\<open>catch\<close>, for every
  behaviour of the database client and the hasher.
\<close>

lemma post_login_absent:
  assumes "db_oneOrNone e (users st) (body_username rq) = Inr None"
  shows "post_login e st rq =
     Done (Render ''pages/login''
             [(''message'', JStr ''Username not found. Please register.''),
              (''error'', JBool True)]) st"
  using assms by (simp add: post_login_def login_try_def await_def res_render_def)

lemma post_login_mismatch:
  assumes "db_oneOrNone e (users st) (body_username rq) = Inr (Some u)"
    and "bcrypt_compare e (body_password rq) (password u) = Inr False"
  shows "post_login e st rq =
     Done (Render ''login''
             [(''message'', JStr ''Incorrect username or password.''),
              (''error'', JBool True)]) st"
  using assms by (simp add: post_login_def login_try_def await_def res_render_def)

lemma post_login_match:
  assumes "db_oneOrNone e (users st) (body_username rq) = Inr (Some u)"
    and "bcrypt_compare e (body_password rq) (password u) = Inr True"
  shows "post_login e st rq =
     Done (Redirect ''/discover'')
       (session_save st (client rq) ((req_session st rq)\<lparr>user := Some u\<rparr>))"
  using assms by (simp add: post_login_def login_try_def await_def)

lemma post_login_lookup_throws:
  assumes "db_oneOrNone e (users st) (body_username rq) = Inl err"
  shows "post_login e st rq =
     Done (Render ''pages/login''
             [(''message'', JStr ''An error occurred during login. Please try again.''),
              (''error'', JBool True)]) st"
  using assms
  by (simp add: post_login_def login_try_def await_def render_page_def res_render_def)

lemma post_login_compare_throws:
  assumes "db_oneOrNone e (users st) (body_username rq) = Inr (Some u)"
    and "bcrypt_compare e (body_password rq) (password u) = Inl err"
  shows "post_login e st rq =
     Done (Render ''pages/login''
             [(''message'', JStr ''An error occurred during login. Please try again.''),
              (''error'', JBool True)]) st"
  using assms
  by (simp add: post_login_def login_try_def await_def render_page_def res_render_def)

text \<open>On the table of the specification, a lookup finds nothing exactly when no row has the name.\<close>

lemma pg_oneOrNone_absent:
  "pg_oneOrNone tbl (Some n) = Inr None \<longleftrightarrow> n \<notin> set (map username tbl)"
proof -
  have "filter (\<lambda>r. username r = n) tbl = [] \<longleftrightarrow> n \<notin> set (map username tbl)"
    by (auto simp: filter_empty_conv)
  then show ?thesis
    by (auto simp: pg_oneOrNone_def split: list.splits)
qed

text \<open>
  C6. A \<^verbatim>\<open>POST /login\<close> whose lookup finds no row is answered by rendering \<^verbatim>\<open>pages/login\<close>
  with the message \<^verbatim>\<open>Username not found. Please register.\<close> and the error flag set; the
  status is 200, the response is not a redirect, and the state, sessions included, is
  unchanged.
\<close>

theorem login_unknown_username:
  assumes "verb rq = POST" and "path rq = ''/login''"
    and "db_oneOrNone e (users st) (body_username rq) = Inr None"
  shows "app e st rq =
           (Render ''pages/login''
              [(''message'', JStr ''Username not found. Please register.''),
               (''error'', JBool True)], st)
       \<and> status_code (fst (app e st rq)) = Some 200
       \<and> \<not> is_redirect (fst (app e st rq))
       \<and> sessions (snd (app e st rq)) = sessions st"
proof -
  have "app e st rq =
          (Render ''pages/login''
             [(''message'', JStr ''Username not found. Please register.''),
              (''error'', JBool True)], st)"
    using assms by (intro app_post_login post_login_absent)
  then show ?thesis by simp
qed

theorem login_unknown_username_witness:
  "app up_env registered (form_rq 2 ''/login'' ''bob'' ''x'') =
     (Render ''pages/login''
        [(''message'', JStr ''Username not found. Please register.''),
         (''error'', JBool True)], registered)
   \<and> status_code (fst (app up_env registered (form_rq 2 ''/login'' ''bob'' ''x''))) = Some 200"
proof -
  let ?rq = "form_rq 2 ''/login'' ''bob'' ''x''"
  have 1: "verb ?rq = POST" and 2: "path ?rq = ''/login''"
    by (simp_all add: form_rq_def)
  have 3: "db_oneOrNone up_env (users registered) (body_username ?rq) = Inr None"
    by (simp add: concrete_defs)
  from login_unknown_username [OF 1 2 3] show ?thesis by simp
qed

text \<open>
  C8. When the lookup throws, or the lookup finds a row and the comparison throws, a
  \<^verbatim>\<open>POST /login\<close> is answered by rendering \<^verbatim>\<open>pages/login\<close> with one fixed message and the
  error flag set. The response is the same for every error, so nothing of the error
  reaches the client; no exception escapes the handler, and the state is unchanged.
\<close>

theorem login_failure_generic:
  assumes "verb rq = POST" and "path rq = ''/login''"
    and "db_oneOrNone e (users st) (body_username rq) = Inl err
         \<or> (\<exists>u. db_oneOrNone e (users st) (body_username rq) = Inr (Some u)
                \<and> bcrypt_compare e (body_password rq) (password u) = Inl err)"
  shows "app e st rq =
           (Render ''pages/login''
              [(''message'', JStr ''An error occurred during login. Please try again.''),
               (''error'', JBool True)], st)
       \<and> (\<forall>f. fst (app e st rq) \<noteq> Unhandled f)"
proof -
  have "post_login e st rq =
          Done (Render ''pages/login''
                  [(''message'', JStr ''An error occurred during login. Please try again.''),
                   (''error'', JBool True)]) st"
    using assms(3) post_login_lookup_throws post_login_compare_throws by blast
  then have "app e st rq =
          (Render ''pages/login''
             [(''message'', JStr ''An error occurred during login. Please try again.''),
              (''error'', JBool True)], st)"
    using assms(1,2) by (intro app_post_login)
  then show ?thesis by simp
qed

theorem login_failure_generic_witness:
  "app down_env registered (form_rq 1 ''/login'' ''alice'' ''pw1'') =
     (Render ''pages/login''
        [(''message'', JStr ''An error occurred during login. Please try again.''),
         (''error'', JBool True)], registered)
   \<and> app badhash_env registered (form_rq 1 ''/login'' ''alice'' ''pw1'') =
     (Render ''pages/login''
        [(''message'', JStr ''An error occurred during login. Please try again.''),
         (''error'', JBool True)], registered)"
proof -
  let ?rq = "form_rq 1 ''/login'' ''alice'' ''pw1''"
  have 1: "verb ?rq = POST" and 2: "path ?rq = ''/login''"
    by (simp_all add: form_rq_def)
  have 3: "db_oneOrNone down_env (users registered) (body_username ?rq)
             = Inl (Failure ''connect ECONNREFUSED'')
           \<or> (\<exists>u. db_oneOrNone down_env (users registered) (body_username ?rq) = Inr (Some u)
                \<and> bcrypt_compare down_env (body_password ?rq) (password u)
                    = Inl (Failure ''connect ECONNREFUSED''))"
    by (simp add: down_env_def)
  have "db_oneOrNone badhash_env (users registered) (body_username ?rq) = Inr (Some alice)
        \<and> bcrypt_compare badhash_env (body_password ?rq) (password alice)
            = Inl (Failure ''Not a valid BCrypt hash.'')"
    by (simp add: concrete_defs)
  then have 4: "db_oneOrNone badhash_env (users registered) (body_username ?rq)
             = Inl (Failure ''Not a valid BCrypt hash.'')
           \<or> (\<exists>u. db_oneOrNone badhash_env (users registered) (body_username ?rq) = Inr (Some u)
                \<and> bcrypt_compare badhash_env (body_password ?rq) (password u)
                    = Inl (Failure ''Not a valid BCrypt hash.''))"
    by blast
  from login_failure_generic [OF 1 2 3] login_failure_generic [OF 1 2 4]
  show ?thesis by simp
qed

text \<open>
  C2. The code at a wrong password for a registered username: the handler renders the
  view \<^verbatim>\<open>login\<close>, with the message and the error flag; at an unknown username, and when
  the lookup fails, the same handler renders the view \<^verbatim>\<open>pages/login\<close>.
\<close>

theorem login_mismatch_view:
  "app up_env registered (form_rq 1 ''/login'' ''alice'' ''wrong'') =
     (Render ''login''
        [(''message'', JStr ''Incorrect username or password.''),
         (''error'', JBool True)], registered)
   \<and> fst (app up_env registered (form_rq 1 ''/login'' ''bob'' ''x'')) =
     Render ''pages/login''
        [(''message'', JStr ''Username not found. Please register.''),
         (''error'', JBool True)]
   \<and> fst (app down_env registered (form_rq 1 ''/login'' ''alice'' ''wrong'')) =
     Render ''pages/login''
        [(''message'', JStr ''An error occurred during login. Please try again.''),
         (''error'', JBool True)]"
proof -
  let ?wrong = "form_rq 1 ''/login'' ''alice'' ''wrong''"
  let ?bob = "form_rq 1 ''/login'' ''bob'' ''x''"
  have a: "app up_env registered ?wrong =
     (Render ''login''
        [(''message'', JStr ''Incorrect username or password.''),
         (''error'', JBool True)], registered)"
  proof (rule app_post_login)
    show "verb ?wrong = POST" and "path ?wrong = ''/login''"
      by (simp_all add: form_rq_def)
    show "post_login up_env registered ?wrong =
       Done (Render ''login''
               [(''message'', JStr ''Incorrect username or password.''),
                (''error'', JBool True)]) registered"
      by (rule post_login_mismatch [where u = alice]) (simp_all add: concrete_defs)
  qed
  have b: "app up_env registered ?bob =
     (Render ''pages/login''
        [(''message'', JStr ''Username not found. Please register.''),
         (''error'', JBool True)], registered)"
    by (intro app_post_login post_login_absent) (simp_all add: concrete_defs)
  have c: "app down_env registered ?wrong =
     (Render ''pages/login''
        [(''message'', JStr ''An error occurred during login. Please try again.''),
         (''error'', JBool True)], registered)"
    by (intro app_post_login post_login_lookup_throws [where err = "Failure ''connect ECONNREFUSED''"])
       (simp_all add: concrete_defs)
  from a b c show ?thesis by simp
qed

text \<open>
  The spellings of the login and discover paths reach their handlers, like the paths
  themselves.
\<close>

lemma path_match_routes:
  "path_match ''/'' s \<longleftrightarrow> map lower_char s = [] \<or> map lower_char s = ''/''"
  "path_match ''/register'' s \<longleftrightarrow>
     map lower_char s = ''/register'' \<or> map lower_char s = ''/register/''"
  "path_match ''/discover'' s \<longleftrightarrow>
     map lower_char s = ''/discover'' \<or> map lower_char s = ''/discover/''"
  by (simp_all add: path_match_def strip_slash_def lower_char_def Let_def)

lemma path_match_login_only:
  assumes "path_match ''/login'' s"
  shows "\<not> path_match ''/'' s" and "\<not> path_match ''/register'' s"
  using assms by (auto simp: path_match_login path_match_routes)

lemma path_match_discover_only:
  assumes "path_match ''/discover'' s"
  shows "\<not> path_match ''/'' s" and "\<not> path_match ''/login'' s"
    and "\<not> path_match ''/register'' s"
  using assms by (auto simp: path_match_login path_match_routes)

lemma app_post_login_any:
  assumes "verb rq = POST" and "path_match ''/login'' (path rq)"
    and "post_login e st rq = Done r st'"
  shows "app e st rq = (r, st')"
  using assms path_match_login_only [OF assms(2)]
  by (simp add: app_def layers_def)

lemma app_get_discover_any:
  assumes "verb rq = GET" and "path_match ''/discover'' (path rq)"
    and "user (req_session st rq) = Some u"
  shows "app e st rq = (Render ''pages/discover'' [], st)"
  using assms path_match_discover_only [OF assms(2)]
  by (simp add: app_def layers_def handler_defs)

text \<open>
  A request leaves a client without a user in its session as it found it, unless it is a
  \<^verbatim>\<open>POST\<close> of that client to the login route that is answered with the redirect to
  \<^verbatim>\<open>/discover\<close>: no other layer, and no other way out of the login handler, writes a user
  into a session.
\<close>

lemma post_login_logs_in:
  assumes "post_login e st rq = Done r st'"
  shows "client_session st' c = client_session st c
       \<or> (client rq = c \<and> r = Redirect ''/discover'')"
  using assms
  by (auto simp: post_login_def login_try_def await_def render_page_def res_render_def
        session_save_def client_session_def split: sum.splits option.splits if_splits)

lemma post_register_sessions:
  assumes "post_register e st rq = Done r st'"
  shows "sessions st' = sessions st"
  using assms
  by (auto simp: post_register_def register_try_def await_def split: sum.splits)

lemma get_logout_anonymous:
  assumes "get_logout e st rq = Done r st'" and "user (client_session st c) = None"
  shows "user (client_session st' c) = None"
  using assms
  by (auto simp: get_logout_def session_destroy_def render_page_def res_render_def
        client_session_def split: option.splits if_splits)

lemma dispatch_anonymous_or_login:
  assumes "user (client_session st c) = None" and "set ls \<subseteq> set layers"
  shows "user (client_session (snd (dispatch ls e st rq)) c) = None
       \<or> (client rq = c \<and> verb rq = POST \<and> path_match ''/login'' (path rq)
          \<and> fst (dispatch ls e st rq) = Redirect ''/discover'')"
  using assms(2)
proof (induction ls)
  case Nil
  then show ?case using assms(1) by simp
next
  case (Cons l ls)
  have rest: "user (client_session (snd (dispatch ls e st rq)) c) = None
       \<or> (client rq = c \<and> verb rq = POST \<and> path_match ''/login'' (path rq)
          \<and> fst (dispatch ls e st rq) = Redirect ''/discover'')"
    using Cons.prems by (intro Cons.IH) simp
  have here: "l \<in> set layers"
    using Cons.prems by simp
  show ?case
  proof (cases "layer_matches l rq")
    case False
    with rest show ?thesis by simp
  next
    case True
    show ?thesis
    proof (cases "layer_handler l e st rq")
      case Next
      with True rest show ?thesis by simp
    next
      case (Done r st')
      have "l = Route GET ''/'' get_root \<or> l = Route GET ''/login'' get_login
          \<or> l = Route GET ''/register'' get_register
          \<or> l = Route POST ''/register'' post_register
          \<or> l = Route POST ''/login'' post_login
          \<or> l = Use auth \<or> l = UseAt ''/discover'' auth
          \<or> l = Route GET ''/discover'' get_discover
          \<or> l = Route GET ''/logout'' get_logout
          \<or> l = Route GET ''/profile'' get_profile"
        using here unfolding layers_def by (simp only: set_simps insert_iff empty_iff simp_thms)
      then have "user (client_session st' c) = None
          \<or> (client rq = c \<and> verb rq = POST \<and> path_match ''/login'' (path rq)
             \<and> r = Redirect ''/discover'')"
      proof (elim disjE)
        assume "l = Route POST ''/login'' post_login"
        with True Done have "verb rq = POST" "path_match ''/login'' (path rq)"
            "post_login e st rq = Done r st'"
          by simp_all
        with post_login_logs_in [of e st rq r st' c] assms(1) show ?thesis
          by auto
      next
        assume "l = Route POST ''/register'' post_register"
        with Done have "post_register e st rq = Done r st'" by simp
        from post_register_sessions [OF this] assms(1) show ?thesis
          by (simp add: client_session_def)
      next
        assume "l = Route GET ''/logout'' get_logout"
        with Done have "get_logout e st rq = Done r st'" by simp
        from get_logout_anonymous [OF this assms(1)] show ?thesis by simp
      next
        assume "l = Route GET ''/'' get_root"
        with Done assms(1) show ?thesis by (auto simp: get_root_def)
      next
        assume "l = Route GET ''/login'' get_login"
        with Done assms(1) show ?thesis
          by (auto simp: get_login_def render_page_def res_render_def)
      next
        assume "l = Route GET ''/register'' get_register"
        with Done assms(1) show ?thesis
          by (auto simp: get_register_def render_page_def res_render_def)
      next
        assume "l = Use auth"
        with Done assms(1) show ?thesis
          by (auto simp: auth_def split: if_splits)
      next
        assume "l = UseAt ''/discover'' auth"
        with Done assms(1) show ?thesis
          by (auto simp: auth_def split: if_splits)
      next
        assume "l = Route GET ''/discover'' get_discover"
        with Done assms(1) show ?thesis
          by (auto simp: get_discover_def render_page_def res_render_def)
      next
        assume "l = Route GET ''/profile'' get_profile"
        with Done assms(1) show ?thesis
          by (auto simp: get_profile_def res_render_def split: option.splits)
      qed
      with True Done show ?thesis by simp
    qed
  qed
qed

lemma app_anonymous_or_login:
  assumes "user (client_session st c) = None"
  shows "user (client_session (snd (app e st rq)) c) = None
       \<or> (client rq = c \<and> verb rq = POST \<and> path_match ''/login'' (path rq)
          \<and> fst (app e st rq) = Redirect ''/discover'')"
  unfolding app_def using assms by (intro dispatch_anonymous_or_login) simp_all

lemma app_keeps_anonymous:
  assumes "user (client_session st c) = None"
    and "\<not> (client rq = c \<and> verb rq = POST \<and> path_match ''/login'' (path rq))"
  shows "user (client_session (snd (app e st rq)) c) = None"
  using app_anonymous_or_login [OF assms(1), of e rq] assms(2) by blast

lemma snd_run_Cons: "snd (run st (x # xs)) = snd (run (snd (app (fst x) st (snd x))) xs)"
  by (simp split: prod.splits)

lemma fst_run_Cons:
  "fst (run st (x # xs)) = fst (app (fst x) st (snd x)) # fst (run (snd (app (fst x) st (snd x))) xs)"
  by (simp split: prod.splits)

lemma run_keeps_anonymous:
  assumes "user (client_session st c) = None"
    and "\<forall>x\<in>set tr. \<not> (client (snd x) = c \<and> verb (snd x) = POST
                        \<and> path_match ''/login'' (path (snd x)))"
  shows "user (client_session (snd (run st tr)) c) = None"
  using assms
proof (induction tr arbitrary: st)
  case Nil
  then show ?case by simp
next
  case (Cons x xs)
  have "user (client_session (snd (app (fst x) st (snd x))) c) = None"
    using Cons.prems by (intro app_keeps_anonymous) auto
  then have "user (client_session (snd (run (snd (app (fst x) st (snd x))) xs)) c) = None"
    using Cons.prems by (intro Cons.IH) auto
  then show ?case
    by (simp only: snd_run_Cons)
qed

lemma run_login_needed:
  assumes "user (client_session st c) = None"
    and "user (client_session (snd (run st tr)) c) \<noteq> None"
  shows "\<exists>i<length tr. client (snd (tr ! i)) = c \<and> verb (snd (tr ! i)) = POST
           \<and> path_match ''/login'' (path (snd (tr ! i)))
           \<and> fst (run st tr) ! i = Redirect ''/discover''"
  using assms
proof (induction tr arbitrary: st)
  case Nil
  then show ?case by simp
next
  case (Cons x xs)
  let ?st' = "snd (app (fst x) st (snd x))"
  show ?case
  proof (cases "user (client_session ?st' c) = None")
    case True
    have "user (client_session (snd (run ?st' xs)) c) \<noteq> None"
      using Cons.prems(2) by (simp add: snd_run_Cons del: run.simps)
    with True obtain i where i: "i < length xs" "client (snd (xs ! i)) = c"
        "verb (snd (xs ! i)) = POST" "path_match ''/login'' (path (snd (xs ! i)))"
        "fst (run ?st' xs) ! i = Redirect ''/discover''"
      using Cons.IH [of ?st'] by blast
    have "Suc i < length (x # xs)"
      using i(1) by simp
    moreover have "fst (run st (x # xs)) ! Suc i = Redirect ''/discover''"
      using i(5) by (simp only: fst_run_Cons nth_Cons_Suc)
    ultimately show ?thesis
      using i(2,3,4) by (intro exI [of _ "Suc i"]) simp
  next
    case False
    with app_anonymous_or_login [OF Cons.prems(1), of "fst x" "snd x"]
    have "client (snd x) = c" "verb (snd x) = POST" "path_match ''/login'' (path (snd x))"
        "fst (app (fst x) st (snd x)) = Redirect ''/discover''"
      by blast+
    moreover have "fst (run st (x # xs)) ! 0 = fst (app (fst x) st (snd x))"
      by (simp only: fst_run_Cons nth_Cons_0)
    ultimately show ?thesis
      by (intro exI [of _ 0]) simp
  qed
qed

text \<open>
  C3. A \<^verbatim>\<open>POST\<close> to the login route, in any spelling of its path that the router accepts,
  whose lookup finds a row and whose password verifies stores the whole row in the
  session of the client, writes the session to the store, and is answered with a redirect
  to \<^verbatim>\<open>/discover\<close>; the session the client's next request gets holds that row, and a
  \<^verbatim>\<open>GET /discover\<close> of the client is then rendered. Before any login there is no user: a
  client whose session holds no user, and which sends no \<^verbatim>\<open>POST\<close> to the login route,
  still has no user in its session after any sequence of requests, its own and those of
  other clients; and whenever a client without a user has one after a sequence of
  requests, one of the requests was a \<^verbatim>\<open>POST\<close> of that client to the login route that was
  answered with the redirect to \<^verbatim>\<open>/discover\<close>.
\<close>

theorem login_success_session:
  assumes "verb rq = POST" and "path_match ''/login'' (path rq)"
    and "db_oneOrNone e (users st) (body_username rq) = Inr (Some u)"
    and "bcrypt_compare e (body_password rq) (password u) = Inr True"
  shows "app e st rq =
           (Redirect ''/discover'',
            session_save st (client rq) ((req_session st rq)\<lparr>user := Some u\<rparr>))
       \<and> sessions (snd (app e st rq)) (client rq) = Some \<lparr>user = Some u\<rparr>
       \<and> user (req_session (snd (app e st rq)) rq) = Some u
       \<and> (\<forall>e' rq'. client rq' = client rq \<and> verb rq' = GET
              \<and> path_match ''/discover'' (path rq')
            \<longrightarrow> fst (app e' (snd (app e st rq)) rq') = Render ''pages/discover'' [])
       \<and> (\<forall>st0 tr c. user (client_session st0 c) = None
            \<and> (\<forall>x\<in>set tr. \<not> (client (snd x) = c \<and> verb (snd x) = POST
                               \<and> path_match ''/login'' (path (snd x))))
            \<longrightarrow> user (client_session (snd (run st0 tr)) c) = None)
       \<and> (\<forall>st0 tr c. user (client_session st0 c) = None
            \<and> user (client_session (snd (run st0 tr)) c) \<noteq> None
            \<longrightarrow> (\<exists>i<length tr. client (snd (tr ! i)) = c \<and> verb (snd (tr ! i)) = POST
                    \<and> path_match ''/login'' (path (snd (tr ! i)))
                    \<and> fst (run st0 tr) ! i = Redirect ''/discover''))"
proof -
  have step: "app e st rq =
           (Redirect ''/discover'',
            session_save st (client rq) ((req_session st rq)\<lparr>user := Some u\<rparr>))"
    using assms by (intro app_post_login_any post_login_match)
  have stored: "sessions (snd (app e st rq)) (client rq) = Some \<lparr>user = Some u\<rparr>"
    by (simp add: step session_save_def)
  have seen: "user (req_session (snd (app e st rq)) rq) = Some u"
    by (simp add: stored req_session_def client_session_def)
  have next_rq: "fst (app e' (snd (app e st rq)) rq') = Render ''pages/discover'' []"
    if "client rq' = client rq" and "verb rq' = GET" and "path_match ''/discover'' (path rq')"
    for e' rq'
  proof -
    have "user (req_session (snd (app e st rq)) rq') = Some u"
      using that(1) stored by (simp add: req_session_def client_session_def)
    with that(2,3) show ?thesis
      by (simp add: app_get_discover_any)
  qed
  have before: "user (client_session (snd (run st0 tr)) c) = None"
    if "user (client_session st0 c) = None"
      and "\<forall>x\<in>set tr. \<not> (client (snd x) = c \<and> verb (snd x) = POST
                          \<and> path_match ''/login'' (path (snd x)))"
    for st0 tr c
    using that by (rule run_keeps_anonymous)
  have needed: "\<exists>i<length tr. client (snd (tr ! i)) = c \<and> verb (snd (tr ! i)) = POST
                    \<and> path_match ''/login'' (path (snd (tr ! i)))
                    \<and> fst (run st0 tr) ! i = Redirect ''/discover''"
    if "user (client_session st0 c) = None"
      and "user (client_session (snd (run st0 tr)) c) \<noteq> None"
    for st0 tr c
    using that by (rule run_login_needed)
  show ?thesis
  proof (intro conjI allI impI)
    show "app e st rq =
           (Redirect ''/discover'',
            session_save st (client rq) ((req_session st rq)\<lparr>user := Some u\<rparr>))"
      by (rule step)
    show "sessions (snd (app e st rq)) (client rq) = Some \<lparr>user = Some u\<rparr>"
      by (rule stored)
    show "user (req_session (snd (app e st rq)) rq) = Some u"
      by (rule seen)
  next
    fix e' :: env and rq' :: request
    assume "client rq' = client rq \<and> verb rq' = GET \<and> path_match ''/discover'' (path rq')"
    then show "fst (app e' (snd (app e st rq)) rq') = Render ''pages/discover'' []"
      using next_rq by blast
  next
    fix st0 :: state and tr :: "(env \<times> request) list" and c :: nat
    assume "user (client_session st0 c) = None
            \<and> (\<forall>x\<in>set tr. \<not> (client (snd x) = c \<and> verb (snd x) = POST
                               \<and> path_match ''/login'' (path (snd x))))"
    then show "user (client_session (snd (run st0 tr)) c) = None"
      using before by blast
  next
    fix st0 :: state and tr :: "(env \<times> request) list" and c :: nat
    assume "user (client_session st0 c) = None
            \<and> user (client_session (snd (run st0 tr)) c) \<noteq> None"
    then show "\<exists>i<length tr. client (snd (tr ! i)) = c \<and> verb (snd (tr ! i)) = POST
                    \<and> path_match ''/login'' (path (snd (tr ! i)))
                    \<and> fst (run st0 tr) ! i = Redirect ''/discover''"
      using needed by blast
  qed
qed

theorem login_success_session_witness:
  "app up_env registered (form_rq 1 ''/LOGIN'' ''alice'' ''pw1'') =
     (Redirect ''/discover'',
      session_save registered 1 \<lparr>user = Some alice\<rparr>)
   \<and> fst (app up_env (snd (app up_env registered (form_rq 1 ''/LOGIN'' ''alice'' ''pw1'')))
           (plain_rq 1 GET ''/discover'')) = Render ''pages/discover'' []
   \<and> user (client_session
        (snd (run registered
           [(up_env, plain_rq 1 GET ''/profile''),
            (up_env, form_rq 2 ''/login/'' ''alice'' ''pw1''),
            (up_env, form_rq 1 ''/register'' ''carol'' ''pw3''),
            (up_env, plain_rq 1 GET ''/logout'')])) 1) = None
   \<and> user (client_session
        (snd (run registered
           [(up_env, form_rq 1 ''/login'' ''alice'' ''wrong''),
            (up_env, form_rq 1 ''/LOGIN'' ''bob'' ''x''),
            (up_env, form_rq 2 ''/login'' ''alice'' ''pw1'')])) 1) = None"
proof -
  let ?rq = "form_rq 1 ''/LOGIN'' ''alice'' ''pw1''"
  let ?tr = "[(up_env, plain_rq 1 GET ''/profile''),
              (up_env, form_rq 2 ''/login/'' ''alice'' ''pw1''),
              (up_env, form_rq 1 ''/register'' ''carol'' ''pw3''),
              (up_env, plain_rq 1 GET ''/logout'')]"
  let ?tr' = "[(up_env, form_rq 1 ''/login'' ''alice'' ''wrong''),
               (up_env, form_rq 1 ''/LOGIN'' ''bob'' ''x''),
               (up_env, form_rq 2 ''/login'' ''alice'' ''pw1'')]"
  have 1: "verb ?rq = POST" and 2: "path_match ''/login'' (path ?rq)"
    by (simp_all add: form_rq_def path_match_variants)
  have 3: "db_oneOrNone up_env (users registered) (body_username ?rq) = Inr (Some alice)"
    by (simp add: concrete_defs)
  have 4: "bcrypt_compare up_env (body_password ?rq) (password alice) = Inr True"
    by (simp add: concrete_defs)
  note inst = login_success_session [OF 1 2 3 4]
  have a: "app up_env registered ?rq =
     (Redirect ''/discover'', session_save registered 1 \<lparr>user = Some alice\<rparr>)"
    using inst by (simp add: concrete_defs)
  have nx: "\<forall>e' rq'. client rq' = client ?rq \<and> verb rq' = GET
              \<and> path_match ''/discover'' (path rq')
            \<longrightarrow> fst (app e' (snd (app up_env registered ?rq)) rq') = Render ''pages/discover'' []"
    using inst by blast
  have b: "fst (app up_env (snd (app up_env registered ?rq)) (plain_rq 1 GET ''/discover''))
             = Render ''pages/discover'' []"
    using nx [rule_format, of "plain_rq 1 GET ''/discover''" up_env]
    by (simp add: form_rq_def plain_rq_def path_facts)
  have quiet: "\<forall>x\<in>set ?tr. \<not> (client (snd x) = 1 \<and> verb (snd x) = POST
                               \<and> path_match ''/login'' (path (snd x)))"
    by (simp add: form_rq_def plain_rq_def path_facts)
  have anon: "user (client_session registered 1) = None"
    by (simp add: concrete_defs)
  have c: "user (client_session (snd (run registered ?tr)) 1) = None"
    using inst anon quiet by blast
  have alice_row: "db_oneOrNone up_env [alice] (Some ''alice'') = Inr (Some alice)"
    and bob_row: "db_oneOrNone up_env [alice] (Some ''bob'') = Inr None"
    and wrong: "bcrypt_compare up_env (Some ''wrong'') (password alice) = Inr False"
    and right: "bcrypt_compare up_env (Some ''pw1'') (password alice) = Inr True"
    by (simp_all add: concrete_defs)
  have r1: "app up_env registered (form_rq 1 ''/login'' ''alice'' ''wrong'') =
      (Render ''login''
         [(''message'', JStr ''Incorrect username or password.''), (''error'', JBool True)],
       registered)"
    by (intro app_post_login_any post_login_mismatch [where u = alice])
       (simp_all add: form_rq_def registered_def path_facts alice_row wrong)
  have r2: "app up_env registered (form_rq 1 ''/LOGIN'' ''bob'' ''x'') =
      (Render ''pages/login''
         [(''message'', JStr ''Username not found. Please register.''), (''error'', JBool True)],
       registered)"
    by (intro app_post_login_any post_login_absent)
       (simp_all add: form_rq_def registered_def path_match_variants bob_row)
  have r3: "fst (app up_env registered (form_rq 2 ''/login'' ''alice'' ''pw1''))
              = Redirect ''/discover''"
    using app_post_login_any [OF _ _ post_login_match [where u = alice],
        of "form_rq 2 ''/login'' ''alice'' ''pw1''" up_env registered]
    by (simp add: form_rq_def registered_def path_facts alice_row right)
  have resp: "fst (run registered ?tr') =
      [Render ''login''
         [(''message'', JStr ''Incorrect username or password.''), (''error'', JBool True)],
       Render ''pages/login''
         [(''message'', JStr ''Username not found. Please register.''), (''error'', JBool True)],
       Redirect ''/discover'']"
    by (simp only: fst_run_Cons fst_conv snd_conv r1 r2 r3 run.simps(1))
  have none: "\<not> (\<exists>i<length ?tr'. client (snd (?tr' ! i)) = 1 \<and> verb (snd (?tr' ! i)) = POST
                    \<and> path_match ''/login'' (path (snd (?tr' ! i)))
                    \<and> fst (run registered ?tr') ! i = Redirect ''/discover'')"
    unfolding resp
    by (auto simp: less_Suc_eq nth_Cons' form_rq_def)
  have d: "user (client_session (snd (run registered ?tr')) 1) = None"
    using inst anon none by blast
  from a b c d show ?thesis by simp
qed

section \<open>The authentication guard\<close>





section \<open>Logout and profile\<close>

text \<open>
  C7, as stated, at a client that is not logged in: the session store would destroy the
  session (or would fail to), but the guard answers first with a redirect to \<^verbatim>\<open>/login\<close>;
  the response is neither the logout page nor the failure message.
\<close>

theorem logout_anonymous_counterexample:
  "user (req_session registered (plain_rq 1 GET ''/logout'')) = None
   \<and> store_destroy up_env = None
   \<and> app up_env registered (plain_rq 1 GET ''/logout'') = (Redirect ''/login'', registered)
   \<and> \<not> is_render (fst (app up_env registered (plain_rq 1 GET ''/logout'')))
   \<and> store_destroy stuck_env = Some (Failure ''store unavailable'')
   \<and> app stuck_env registered (plain_rq 1 GET ''/logout'') = (Redirect ''/login'', registered)
   \<and> status_code (fst (app stuck_env registered (plain_rq 1 GET ''/logout''))) \<noteq> Some 500"
proof -
  let ?rq = "plain_rq 1 GET ''/logout''"
  have anon: "user (req_session registered ?rq) = None"
    by (simp add: concrete_defs)
  have gate: "app e registered ?rq = (Redirect ''/login'', registered)" for e
    by (rule app_gate [OF anon]) (simp_all add: plain_rq_def path_facts)
  have works: "store_destroy up_env = None"
    by (simp add: up_env_def)
  have stuck: "store_destroy stuck_env = Some (Failure ''store unavailable'')"
    by (simp add: stuck_env_def)
  from anon gate [of up_env] gate [of stuck_env] works stuck show ?thesis
    by simp
qed

text \<open>
  C7, amended. A \<^verbatim>\<open>GET /logout\<close> from a client whose session holds a user reaches the
  logout handler, which destroys the session. When the destruction fails the response is
  status 500 with the plain text \<^verbatim>\<open>Could not log out.\<close> and no page is rendered. When it
  succeeds the handler renders \<^verbatim>\<open>pages/logout\<close> with the message
  \<^verbatim>\<open>Logged out Successfully\<close> and the error flag false, the store no longer holds a
  session for the client, and the client's next request gets a session without a user.
\<close>

theorem logout_authenticated:
  assumes "verb rq = GET" and "path rq = ''/logout''"
    and "user (req_session st rq) = Some u"
  shows "(\<forall>err. store_destroy e = Some err
            \<longrightarrow> fst (app e st rq) = Send 500 ''Could not log out.''
              \<and> status_code (fst (app e st rq)) = Some 500
              \<and> \<not> is_render (fst (app e st rq)))
       \<and> (store_destroy e = None
            \<longrightarrow> app e st rq =
                  (Render ''pages/logout''
                     [(''message'', JStr ''Logged out Successfully''),
                      (''error'', JBool False)],
                   st\<lparr>sessions := (sessions st)(client rq := None)\<rparr>)
              \<and> sessions (snd (app e st rq)) (client rq) = None
              \<and> user (req_session (snd (app e st rq)) rq) = None)"
proof -
  have fails: "app e st rq = (Send 500 ''Could not log out.'', st)"
    if "store_destroy e = Some err" for err
    using that by (intro app_get_logout [OF assms]) (simp add: get_logout_def session_destroy_def)
  have works: "app e st rq =
       (Render ''pages/logout''
          [(''message'', JStr ''Logged out Successfully''), (''error'', JBool False)],
        st\<lparr>sessions := (sessions st)(client rq := None)\<rparr>)"
    if "store_destroy e = None"
    using that
    by (intro app_get_logout [OF assms])
       (simp add: get_logout_def session_destroy_def render_page_def res_render_def)
  show ?thesis
    using fails works by (auto simp: req_session_def client_session_def)
qed

theorem logout_authenticated_witness:
  "app up_env (logged_in 1 ''#pw1'') (plain_rq 1 GET ''/logout'') =
     (Render ''pages/logout''
        [(''message'', JStr ''Logged out Successfully''), (''error'', JBool False)],
      (logged_in 1 ''#pw1'')\<lparr>sessions := (sessions (logged_in 1 ''#pw1''))(1 := None)\<rparr>)
   \<and> fst (app stuck_env (logged_in 1 ''#pw1'') (plain_rq 1 GET ''/logout'')) =
     Send 500 ''Could not log out.''"
proof -
  let ?rq = "plain_rq 1 GET ''/logout''"
  let ?u = "\<lparr>username = ''alice'', password = ''#pw1''\<rparr>"
  have 1: "verb ?rq = GET" and 2: "path ?rq = ''/logout''"
    by (simp_all add: plain_rq_def)
  have 3: "user (req_session (logged_in 1 ''#pw1'') ?rq) = Some ?u"
    by (simp add: concrete_defs)
  have ok: "store_destroy up_env = None"
    by (simp add: up_env_def)
  have bad: "store_destroy stuck_env = Some (Failure ''store unavailable'')"
    by (simp add: stuck_env_def)
  have a: "app up_env (logged_in 1 ''#pw1'') ?rq =
     (Render ''pages/logout''
        [(''message'', JStr ''Logged out Successfully''), (''error'', JBool False)],
      (logged_in 1 ''#pw1'')\<lparr>sessions := (sessions (logged_in 1 ''#pw1''))(1 := None)\<rparr>)"
    using logout_authenticated [OF 1 2 3, of up_env] ok by (simp add: plain_rq_def)
  have b: "fst (app stuck_env (logged_in 1 ''#pw1'') ?rq) = Send 500 ''Could not log out.''"
    using logout_authenticated [OF 1 2 3, of stuck_env] bad by blast
  from a b show ?thesis by simp
qed

text \<open>
  C1, as stated, at a client that is not logged in: the response to \<^verbatim>\<open>GET /profile\<close> is the
  guard's redirect to \<^verbatim>\<open>/login\<close>, status 302, and not status 401.
\<close>

theorem profile_anonymous_counterexample:
  "user (req_session registered (plain_rq 1 GET ''/profile'')) = None
   \<and> app up_env registered (plain_rq 1 GET ''/profile'') = (Redirect ''/login'', registered)
   \<and> fst (app up_env registered (plain_rq 1 GET ''/profile'')) \<noteq> Send 401 ''Not authenticated''
   \<and> status_code (fst (app up_env registered (plain_rq 1 GET ''/profile''))) = Some 302"
proof -
  let ?rq = "plain_rq 1 GET ''/profile''"
  have anon: "user (req_session registered ?rq) = None"
    by (simp add: concrete_defs)
  have gate: "app up_env registered ?rq = (Redirect ''/login'', registered)"
    by (rule app_gate [OF anon]) (simp_all add: plain_rq_def path_facts)
  from anon gate show ?thesis
    by simp
qed

text \<open>
  C1, amended. The profile handler, run on a session that holds no user, answers with
  status 401 and the plain text \<^verbatim>\<open>Not authenticated\<close>, without rendering a template. In
  the application a \<^verbatim>\<open>GET /profile\<close> with such a session does not reach the handler: the
  guard, registered before it, answers with a redirect to \<^verbatim>\<open>/login\<close>.
\<close>

theorem profile_anonymous:
  assumes "verb rq = GET" and "path rq = ''/profile''"
    and "user (req_session st rq) = None"
  shows "get_profile e st rq = Done (Send 401 ''Not authenticated'') st
       \<and> status_code (Send 401 ''Not authenticated'') = Some 401
       \<and> \<not> is_render (Send 401 ''Not authenticated'')
       \<and> app e st rq = (Redirect ''/login'', st)"
proof -
  have "get_profile e st rq = Done (Send 401 ''Not authenticated'') st"
    using assms(3) by (simp add: get_profile_def)
  moreover have "app e st rq = (Redirect ''/login'', st)"
    using assms(2,3) by (intro app_gate) (simp_all add: path_facts)
  ultimately show ?thesis by simp
qed

theorem profile_anonymous_witness:
  "get_profile up_env start (plain_rq 7 GET ''/profile'') =
     Done (Send 401 ''Not authenticated'') start
   \<and> app up_env start (plain_rq 7 GET ''/profile'') = (Redirect ''/login'', start)"
proof -
  let ?rq = "plain_rq 7 GET ''/profile''"
  have 1: "verb ?rq = GET" and 2: "path ?rq = ''/profile''"
    by (simp_all add: plain_rq_def)
  have 3: "user (req_session start ?rq) = None"
    by (simp add: concrete_defs)
  from profile_anonymous [OF 1 2 3, of up_env] show ?thesis by simp
qed

section \<open>The password hash and the templates\<close>

text \<open>
  Every layer answers two states with the same view in the same way, and leaves two
  states with the same view: no handler lets the hash in a session decide anything.
\<close>

lemma same_view_refl: "same_view st st"
  by (simp add: same_view_def)

lemma same_view_user_None:
  assumes "same_view st1 st2"
  shows "user (req_session st1 rq) = None \<longleftrightarrow> user (req_session st2 rq) = None"
proof -
  have "public_user (req_session st1 rq) = public_user (req_session st2 rq)"
    using assms by (simp add: same_view_def req_session_def)
  then show ?thesis
    by (cases "user (req_session st1 rq)"; cases "user (req_session st2 rq)")
       (simp_all add: public_user_def)
qed

lemma same_view_username:
  assumes "same_view st1 st2"
    and "user (req_session st1 rq) = Some u1" and "user (req_session st2 rq) = Some u2"
  shows "username u1 = username u2"
proof -
  have "public_user (req_session st1 rq) = public_user (req_session st2 rq)"
    using assms(1) by (simp add: same_view_def req_session_def)
  with assms(2,3) show ?thesis
    by (simp add: public_user_def)
qed

lemma same_view_users_update:
  assumes "same_view st1 st2"
  shows "same_view (st1\<lparr>users := tbl\<rparr>) (st2\<lparr>users := tbl\<rparr>)"
  using assms by (simp add: same_view_def client_session_def)

lemma same_view_save:
  assumes "same_view st1 st2" and "public_user s1 = public_user s2"
  shows "same_view (session_save st1 c s1) (session_save st2 c s2)"
  using assms by (simp add: same_view_def client_session_def session_save_def)

lemma same_view_destroy:
  assumes "same_view st1 st2"
  shows "same_view (st1\<lparr>sessions := (sessions st1)(c := None)\<rparr>)
                   (st2\<lparr>sessions := (sessions st2)(c := None)\<rparr>)"
  using assms by (simp add: same_view_def client_session_def public_user_def)

lemma post_register_same_view:
  assumes "same_view st1 st2"
  shows "same_outcome (post_register e st1 rq) (post_register e st2 rq)"
proof -
  have tbl: "users st1 = users st2"
    using assms by (simp add: same_view_def)
  show ?thesis
    using assms same_view_users_update [OF assms]
    by (simp add: post_register_def register_try_def await_def tbl split: sum.splits)
qed

lemma post_login_same_view:
  assumes "same_view st1 st2"
  shows "same_outcome (post_login e st1 rq) (post_login e st2 rq)"
proof -
  have tbl: "users st1 = users st2"
    using assms by (simp add: same_view_def)
  have saved: "same_view
      (session_save st1 (client rq) ((req_session st1 rq)\<lparr>user := Some u\<rparr>))
      (session_save st2 (client rq) ((req_session st2 rq)\<lparr>user := Some u\<rparr>))" for u
    using assms by (intro same_view_save) (simp_all add: public_user_def)
  show ?thesis
    using assms saved
    by (simp add: post_login_def login_try_def await_def render_page_def res_render_def tbl
          split: sum.splits option.splits)
qed

lemma auth_same_view:
  assumes "same_view st1 st2"
  shows "same_outcome (auth e st1 rq) (auth e st2 rq)"
  using assms same_view_user_None [OF assms, of rq]
  by (simp add: auth_def)

lemma get_logout_same_view:
  assumes "same_view st1 st2"
  shows "same_outcome (get_logout e st1 rq) (get_logout e st2 rq)"
  using assms same_view_destroy [OF assms, of "client rq"]
  by (simp add: get_logout_def session_destroy_def render_page_def res_render_def
        split: option.splits)

lemma get_profile_same_view:
  assumes "same_view st1 st2"
  shows "same_outcome (get_profile e st1 rq) (get_profile e st2 rq)"
proof (cases "user (req_session st1 rq)")
  case None
  then have "user (req_session st2 rq) = None"
    using same_view_user_None [OF assms, of rq] by simp
  with None assms show ?thesis
    by (simp add: get_profile_def)
next
  case (Some u1)
  then obtain u2 where u2: "user (req_session st2 rq) = Some u2"
    using same_view_user_None [OF assms, of rq] by auto
  have "username u1 = username u2"
    using assms Some u2 by (rule same_view_username)
  with Some u2 assms show ?thesis
    by (simp add: get_profile_def res_render_def)
qed

lemma layers_same_view:
  assumes "same_view st1 st2" and "l \<in> set layers"
  shows "same_outcome (layer_handler l e st1 rq) (layer_handler l e st2 rq)"
proof -
  have static: "same_outcome (get_root e st1 rq) (get_root e st2 rq)"
      "same_outcome (get_login e st1 rq) (get_login e st2 rq)"
      "same_outcome (get_register e st1 rq) (get_register e st2 rq)"
      "same_outcome (get_discover e st1 rq) (get_discover e st2 rq)"
    using assms(1)
    by (simp_all add: get_root_def get_login_def get_register_def get_discover_def
          render_page_def res_render_def)
  from assms(2) static show ?thesis
    using post_register_same_view [OF assms(1)] post_login_same_view [OF assms(1)]
      auth_same_view [OF assms(1)] get_logout_same_view [OF assms(1)]
      get_profile_same_view [OF assms(1)]
    by (auto simp: layers_def)
qed

lemma dispatch_same_view:
  assumes "same_view st1 st2" and "set ls \<subseteq> set layers"
  shows "fst (dispatch ls e st1 rq) = fst (dispatch ls e st2 rq)
       \<and> same_view (snd (dispatch ls e st1 rq)) (snd (dispatch ls e st2 rq))"
  using assms(2)
proof (induction ls)
  case Nil
  then show ?case using assms(1) by simp
next
  case (Cons l ls)
  have rest: "fst (dispatch ls e st1 rq) = fst (dispatch ls e st2 rq)
       \<and> same_view (snd (dispatch ls e st1 rq)) (snd (dispatch ls e st2 rq))"
    using Cons.prems by (intro Cons.IH) simp
  have here: "same_outcome (layer_handler l e st1 rq) (layer_handler l e st2 rq)"
    using Cons.prems by (intro layers_same_view [OF assms(1)]) simp
  show ?case
  proof (cases "layer_handler l e st1 rq")
    case Next
    with here have "layer_handler l e st2 rq = Next"
      by (cases "layer_handler l e st2 rq") simp_all
    with Next rest show ?thesis by simp
  next
    case (Done r1 s1)
    with here obtain s2 where "layer_handler l e st2 rq = Done r1 s2" and "same_view s1 s2"
      by (cases "layer_handler l e st2 rq") simp_all
    with Done rest show ?thesis by simp
  qed
qed

lemma app_same_view:
  assumes "same_view st1 st2"
  shows "fst (app e st1 rq) = fst (app e st2 rq)
       \<and> same_view (snd (app e st1 rq)) (snd (app e st2 rq))"
  unfolding app_def using assms by (intro dispatch_same_view) simp_all

lemma run_same_view:
  assumes "same_view st1 st2"
  shows "fst (run st1 tr) = fst (run st2 tr)"
  using assms
proof (induction tr arbitrary: st1 st2)
  case Nil
  then show ?case by simp
next
  case (Cons x xs)
  note step = app_same_view [OF Cons.prems, of "fst x" "snd x"]
  then have "fst (run (snd (app (fst x) st1 (snd x))) xs)
           = fst (run (snd (app (fst x) st2 (snd x))) xs)"
    by (intro Cons.IH) simp
  with step show ?case
    by (simp only: fst_run_Cons)
qed

text \<open>
  C10. The profile handler hands the renderer the view \<^verbatim>\<open>pages/profile\<close> with one local,
  the username of the session's user, although the session holds the whole row. More
  generally, take two states with the same table whose sessions show the same usernames
  and may hold any password hashes: every sequence of requests is answered with the same
  responses in both, so no render, of any handler, depends on a hash held in a session.
\<close>

theorem session_hash_not_rendered:
  assumes "same_view st1 st2"
  shows "fst (run st1 tr) = fst (run st2 tr)
       \<and> (\<forall>e rq u. user (req_session st1 rq) = Some u
            \<longrightarrow> get_profile e st1 rq =
                  Done (Render ''pages/profile'' [(''username'', JStr (username u))]) st1)"
  using run_same_view [OF assms]
  by (simp add: get_profile_def res_render_def)

theorem session_hash_not_rendered_witness:
  "client_session (logged_in 1 ''#pw1'') 1 \<noteq> client_session (logged_in 1 ''#other'') 1
   \<and> fst (run (logged_in 1 ''#pw1'')
        [(up_env, plain_rq 1 GET ''/profile''), (up_env, plain_rq 1 GET ''/discover''),
         (up_env, plain_rq 1 GET ''/logout''), (up_env, plain_rq 1 GET ''/profile'')])
     = fst (run (logged_in 1 ''#other'')
        [(up_env, plain_rq 1 GET ''/profile''), (up_env, plain_rq 1 GET ''/discover''),
         (up_env, plain_rq 1 GET ''/logout''), (up_env, plain_rq 1 GET ''/profile'')])
   \<and> get_profile up_env (logged_in 1 ''#other'') (plain_rq 1 GET ''/profile'')
     = Done (Render ''pages/profile'' [(''username'', JStr ''alice'')]) (logged_in 1 ''#other'')"
proof -
  have differ: "client_session (logged_in 1 ''#pw1'') 1 \<noteq> client_session (logged_in 1 ''#other'') 1"
    by (simp add: logged_in_def client_session_def)
  have view: "same_view (logged_in 1 ''#pw1'') (logged_in 1 ''#other'')"
    by (simp add: same_view_def logged_in_def client_session_def public_user_def)
  have view': "same_view (logged_in 1 ''#other'') (logged_in 1 ''#pw1'')"
    by (simp add: same_view_def logged_in_def client_session_def public_user_def)
  have seen: "user (req_session (logged_in 1 ''#other'') (plain_rq 1 GET ''/profile''))
                = Some \<lparr>username = ''alice'', password = ''#other''\<rparr>"
    by (simp add: concrete_defs)
  have page: "get_profile up_env (logged_in 1 ''#other'') (plain_rq 1 GET ''/profile'')
     = Done (Render ''pages/profile'' [(''username'', JStr ''alice'')]) (logged_in 1 ''#other'')"
    using session_hash_not_rendered [OF view', of "[]"] seen by simp
  from differ session_hash_not_rendered [OF view] page show ?thesis
    by blast
qed

end
